theory Spec2Isabelle
  imports Main "HOL-Library.Word"
begin

section \<open>Servers\<close>

text \<open>
  The interface \<open>Server\<close> of \<open>main.go\<close> has the methods \<open>Address\<close>, \<open>IsAlive\<close> and
  \<open>Serve\<close>. Its one implementation in the program is \<open>SimpleServer\<close>, whose \<open>IsAlive\<close>
  returns true whatever happens. The selection loop is written against the interface, so
  the model has a second constructor for any other implementation, given by what its
  \<open>Address\<close> and \<open>IsAlive\<close> methods return.
\<close>

datatype Server = SimpleServer string | OtherServer string bool

fun Address :: "Server \<Rightarrow> string" where
  "Address (SimpleServer a) = a"
| "Address (OtherServer a b) = a"

fun IsAlive :: "Server \<Rightarrow> bool" where
  "IsAlive (SimpleServer a) = True"
| "IsAlive (OtherServer a b) = b"

text \<open>
  \<open>Serve\<close> hands the request to the reverse proxy of the server. The proxy and the
  network are outside the program: \<open>transport\<close> says what comes back from an address.
\<close>

definition Serve :: "(string \<Rightarrow> 'r) \<Rightarrow> Server \<Rightarrow> 'r" where
  "Serve transport s = transport (Address s)"

text \<open>
  What the reverse proxy writes to the client: the upstream's response, or the answer of
  its error handler when the upstream cannot be reached.
\<close>

datatype outcome = Relayed string | TransportFailure

section \<open>The load balancer\<close>

text \<open>Go's \<open>int\<close> on a 64-bit platform: addition wraps, the value is read signed.\<close>

type_synonym go_int = "64 word"

record LoadBalancer =
  port :: string
  roundRobinCount :: go_int
  servers :: "Server list"

definition NewLoadBalancer :: "string \<Rightarrow> Server list \<Rightarrow> LoadBalancer" where
  "NewLoadBalancer p ss = \<lparr>port = p, roundRobinCount = 0, servers = ss\<rparr>"

text \<open>The run-time panics of the selection: \<open>%\<close> by zero and a slice index out of range.\<close>

datatype error = DivideByZero | IndexOutOfRange

text \<open>Go's \<open>%\<close> truncates towards zero: the remainder has the sign of the dividend.\<close>

definition go_rem :: "int \<Rightarrow> int \<Rightarrow> int" where
  "go_rem a b = sgn a * (\<bar>a\<bar> mod \<bar>b\<bar>)"

text \<open>
  The expression \<open>lb.servers[lb.roundRobinCount%len(lb.servers)]\<close>, with both panics.
\<close>

definition current :: "LoadBalancer \<Rightarrow> error + Server" where
  "current lb =
     (let n = int (length (servers lb)) in
      if n = 0 then Inl DivideByZero
      else let i = go_rem (sint (roundRobinCount lb)) n in
        if i < 0 \<or> n \<le> i then Inl IndexOutOfRange
        else Inr (servers lb ! nat i))"

definition advance :: "LoadBalancer \<Rightarrow> LoadBalancer" where
  "advance lb = lb\<lparr>roundRobinCount := roundRobinCount lb + 1\<rparr>"

text \<open>
  \<open>GetNextAvailableServer\<close>: the loop has no bound, so the function is partial and
  \<open>None\<close> stands for a call that never returns. On \<open>break\<close> the counter is incremented
  once more and the server returned with the new state.
\<close>

partial_function (option) GetNextAvailableServer ::
  "LoadBalancer \<Rightarrow> (error + Server \<times> LoadBalancer) option" where
  "GetNextAvailableServer lb =
     (case current lb of
        Inl e \<Rightarrow> Some (Inl e)
      | Inr server \<Rightarrow>
          if IsAlive server then Some (Inr (server, advance lb))
          else GetNextAvailableServer (advance lb))"

text \<open>
  \<open>ServeProxy\<close>: one selection, one line printed, one call of \<open>Serve\<close>. The result holds
  the addresses named in the lines printed, the addresses \<open>Serve\<close> was called on, and
  what was written to the client.
\<close>

record 'r served =
  printed :: "string list"
  forwards :: "string list"
  written :: 'r

definition ServeProxy ::
  "(string \<Rightarrow> 'r) \<Rightarrow> LoadBalancer \<Rightarrow> (error + 'r served \<times> LoadBalancer) option" where
  "ServeProxy transport lb =
     (case GetNextAvailableServer lb of
        None \<Rightarrow> None
      | Some (Inl e) \<Rightarrow> Some (Inl e)
      | Some (Inr (targetServer, lb')) \<Rightarrow>
          Some (Inr (\<lparr>printed = [Address targetServer],
                      forwards = [Address targetServer],
                      written = Serve transport targetServer\<rparr>, lb')))"

text \<open>
  The handler of \<open>main\<close> calls \<open>ServeProxy\<close> once for every request. \<open>ServeProxy_all\<close>
  serves a list of requests one after the other, each with the transport behaviour of its
  moment; a panic or a selection that never returns ends the run.
\<close>

fun ServeProxy_all ::
  "(string \<Rightarrow> 'r) list \<Rightarrow> LoadBalancer \<Rightarrow> (error + 'r served list \<times> LoadBalancer) option" where
  "ServeProxy_all [] lb = Some (Inr ([], lb))"
| "ServeProxy_all (t # ts) lb =
     (case ServeProxy t lb of
        None \<Rightarrow> None
      | Some (Inl e) \<Rightarrow> Some (Inl e)
      | Some (Inr (r, lb')) \<Rightarrow>
          (case ServeProxy_all ts lb' of
             None \<Rightarrow> None
           | Some (Inl e) \<Rightarrow> Some (Inl e)
           | Some (Inr (rs, lb'')) \<Rightarrow> Some (Inr (r # rs, lb''))))"



fun is_SimpleServer :: "Server \<Rightarrow> bool" where
  "is_SimpleServer (SimpleServer a) = True"
| "is_SimpleServer (OtherServer a b) = False"

text \<open>
  For the proofs: \<open>dead_at lb j\<close> says that the probe after \<open>j\<close> increments finds a
  server that is not alive; \<open>stops_at lb r k\<close> says that the loop started in \<open>lb\<close> skips
  \<open>k\<close> servers and ends with \<open>r\<close> at the next probe.
\<close>

definition dead_at :: "LoadBalancer \<Rightarrow> nat \<Rightarrow> bool" where
  "dead_at lb j =
     (case current ((advance ^^ j) lb) of Inl e \<Rightarrow> False | Inr d \<Rightarrow> \<not> IsAlive d)"

definition stops_at :: "LoadBalancer \<Rightarrow> error + Server \<times> LoadBalancer \<Rightarrow> nat \<Rightarrow> bool" where
  "stops_at lb r k =
     ((\<forall>j<k. dead_at lb j) \<and>
      (case r of
         Inl e \<Rightarrow> current ((advance ^^ k) lb) = Inl e
       | Inr (s, lb') \<Rightarrow>
           current ((advance ^^ k) lb) = Inr s \<and> IsAlive s \<and> lb' = (advance ^^ Suc k) lb))"

text \<open>The servers of \<open>main\<close>.\<close>

definition main_servers :: "Server list" where
  "main_servers =
     [SimpleServer ''https://www.amazon.com'',
      SimpleServer ''http://www.yahoo.com'',
      SimpleServer ''http://www.instagram.com'']"

section \<open>One step of the selection loop\<close>

lemma GetNext_panic:
  "current lb = Inl e \<Longrightarrow> GetNextAvailableServer lb = Some (Inl e)"
  by (subst GetNextAvailableServer.simps) simp

lemma GetNext_alive:
  "current lb = Inr s \<Longrightarrow> IsAlive s \<Longrightarrow>
   GetNextAvailableServer lb = Some (Inr (s, advance lb))"
  by (subst GetNextAvailableServer.simps) simp


lemma servers_advance [simp]: "servers (advance lb) = servers lb"
  by (simp add: advance_def)

lemma port_advance [simp]: "port (advance lb) = port lb"
  by (simp add: advance_def)

lemma count_advance [simp]: "roundRobinCount (advance lb) = roundRobinCount lb + 1"
  by (simp add: advance_def)

lemma servers_funpow [simp]: "servers ((advance ^^ k) lb) = servers lb"
  by (induction k) simp_all

lemma port_funpow [simp]: "port ((advance ^^ k) lb) = port lb"
  by (induction k) simp_all


lemma sint_succ:
  fixes c :: go_int
  assumes "sint c + 1 < 2 ^ 63"
  shows "sint (c + 1) = sint c + 1"
proof -
  have lo: "- (2 ^ 63) \<le> sint c"
    using sint_ge [of c] by simp
  have "sint (c + 1) = signed_take_bit 63 (sint c + 1)"
    by (simp add: sint_word_add)
  also have "\<dots> = sint c + 1"
    using assms lo by (simp add: signed_take_bit_int_eq_self)
  finally show ?thesis .
qed


lemma go_rem_nonneg: "0 \<le> a \<Longrightarrow> go_rem a b = a mod \<bar>b\<bar>"
  by (cases "a = 0") (simp_all add: go_rem_def)

lemma current_nonneg:
  assumes "0 \<le> sint (roundRobinCount lb)" and "servers lb \<noteq> []"
  shows "current lb = Inr (servers lb ! (nat (sint (roundRobinCount lb)) mod length (servers lb)))"
proof -
  let ?n = "int (length (servers lb))"
  let ?c = "sint (roundRobinCount lb)"
  have n: "0 < ?n" using assms(2) by simp
  have r: "go_rem ?c ?n = ?c mod ?n"
    using assms(1) by (simp add: go_rem_nonneg)
  have rng: "\<not> (?c mod ?n < 0 \<or> ?n \<le> ?c mod ?n)"
    using pos_mod_sign [OF n, of ?c] pos_mod_bound [OF n, of ?c] by linarith
  have idx: "nat (?c mod ?n) = nat ?c mod length (servers lb)"
    using assms(1) by (simp add: nat_mod_distrib)
  have "current lb = Inr (servers lb ! nat (?c mod ?n))"
    unfolding current_def Let_def r using n rng by (simp only: if_False) simp
  then show ?thesis
    by (simp only: idx)
qed



lemma dead_at_Suc: "dead_at lb (Suc j) = dead_at (advance lb) j"
  by (simp add: dead_at_def funpow_swap1)

lemma stops_at_Suc:
  assumes "dead_at lb 0" and "stops_at (advance lb) r k"
  shows "stops_at lb r (Suc k)"
proof -
  have "dead_at lb j" if "j < Suc k" for j
  proof (cases j)
    case 0
    with assms(1) show ?thesis by simp
  next
    case (Suc i)
    with that assms(2) show ?thesis
      by (simp add: stops_at_def dead_at_Suc)
  qed
  moreover have sw: "(advance ^^ n) (advance lb) = (advance ^^ Suc n) lb" for n
    by (simp add: funpow_swap1)
  ultimately show ?thesis
    using assms(2) unfolding stops_at_def sw by (auto split: sum.splits)
qed

lemma GetNext_returns:
  assumes "GetNextAvailableServer lb = Some r"
  shows "\<exists>k. stops_at lb r k"
proof (rule GetNextAvailableServer.raw_induct [where P = "\<lambda>lb r. \<exists>k. stops_at lb r k", OF _ assms])
  fix f lb r
  assume IH: "\<And>lb r. f lb = Some r \<Longrightarrow> \<exists>k. stops_at lb r k"
    and body: "(case current lb of
        Inl e \<Rightarrow> Some (Inl e)
      | Inr server \<Rightarrow>
          if IsAlive server then Some (Inr (server, advance lb))
          else f (advance lb)) = Some r"
  show "\<exists>k. stops_at lb r k"
  proof (cases "current lb")
    case (Inl e)
    with body have "stops_at lb r 0"
      by (auto simp: stops_at_def)
    then show ?thesis ..
  next
    case (Inr s)
    show ?thesis
    proof (cases "IsAlive s")
      case True
      with body Inr have "stops_at lb r 0"
        by (auto simp: stops_at_def)
      then show ?thesis ..
    next
      case False
      with body Inr have "f (advance lb) = Some r" by simp
      then obtain k where "stops_at (advance lb) r k"
        using IH by blast
      moreover have "dead_at lb 0"
        using Inr False by (simp add: dead_at_def)
      ultimately have "stops_at lb r (Suc k)"
        by (simp add: stops_at_Suc)
      then show ?thesis ..
    qed
  qed
qed




lemma current_empty: "servers lb = [] \<Longrightarrow> current lb = Inl DivideByZero"
  by (simp add: current_def)

lemma current_in_set:
  assumes "current lb = Inr s"
  shows "s \<in> set (servers lb)"
proof -
  let ?n = "int (length (servers lb))"
  let ?i = "go_rem (sint (roundRobinCount lb)) ?n"
  from assms have n: "?n \<noteq> 0"
    by (auto simp: current_def)
  with assms have i: "\<not> (?i < 0 \<or> ?n \<le> ?i)"
    by (auto simp: current_def Let_def split: if_splits)
  with assms n have "s = servers lb ! nat ?i"
    by (simp add: current_def Let_def)
  moreover from i have "nat ?i < length (servers lb)"
    by linarith
  ultimately show ?thesis
    by simp
qed

lemma current_single: "servers lb = [d] \<Longrightarrow> current lb = Inr d"
  by (simp add: current_def go_rem_def)

lemma single_dead_spins:
  assumes "servers lb = [d]" and "\<not> IsAlive d"
  shows "GetNextAvailableServer lb = None"
proof (rule ccontr)
  assume "GetNextAvailableServer lb \<noteq> None"
  then obtain r where "GetNextAvailableServer lb = Some r"
    by blast
  then obtain k where k: "stops_at lb r k"
    using GetNext_returns by blast
  have "current ((advance ^^ k) lb) = Inr d"
    using assms(1) by (intro current_single) simp
  with k assms(2) show False
    by (auto simp: stops_at_def split: sum.splits)
qed

section \<open>No backend alive\<close>

text \<open>
  Claim C1 says that with zero backends alive the selection fails with
  \<open>NoAvailableBackend\<close> after at most \<open>len(backendSet)\<close> probes, for every cursor value.
  The program has neither that error nor a bound on the loop. With a single backend that
  is not alive the call never returns, which \<open>None\<close> stands for.
\<close>

theorem all_dead_counterexample:
  "GetNextAvailableServer
     \<lparr>port = ''8000'', roundRobinCount = 0, servers = [OtherServer ''http://localhost:9001'' False]\<rparr>
   = None"
  by (rule single_dead_spins [where d = "OtherServer ''http://localhost:9001'' False"]) simp_all

text \<open>
  Claim C1 as amended: if zero backends are alive, \<open>GetNextAvailableServer\<close> returns no
  backend. Whatever the cursor, the call either does not return or ends in one of the
  two run-time panics.
\<close>

theorem all_dead_never_selects:
  assumes "\<forall>s\<in>set (servers lb). \<not> IsAlive s"
  shows "GetNextAvailableServer lb \<in> {None, Some (Inl DivideByZero), Some (Inl IndexOutOfRange)}"
proof (cases "GetNextAvailableServer lb")
  case None
  then show ?thesis by simp
next
  case (Some r)
  then obtain k where k: "stops_at lb r k"
    using GetNext_returns by blast
  show ?thesis
  proof (cases r)
    case (Inl e)
    with Some show ?thesis
      by (cases e) simp_all
  next
    case (Inr p)
    obtain s lb' where p: "p = (s, lb')"
      by (cases p)
    with k Inr have c: "current ((advance ^^ k) lb) = Inr s" and a: "IsAlive s"
      by (simp_all add: stops_at_def)
    from c have "s \<in> set (servers lb)"
      using current_in_set by fastforce
    with assms a show ?thesis
      by blast
  qed
qed

theorem all_dead_never_selects_witness:
  "\<not> IsAlive (OtherServer ''http://localhost:9001'' False) \<and>
   \<not> IsAlive (OtherServer ''http://localhost:9002'' False) \<and>
   GetNextAvailableServer
     (NewLoadBalancer ''8000''
        [OtherServer ''http://localhost:9001'' False, OtherServer ''http://localhost:9002'' False])
   \<in> {None, Some (Inl DivideByZero), Some (Inl IndexOutOfRange)}"
  using all_dead_never_selects
    [of "NewLoadBalancer ''8000''
        [OtherServer ''http://localhost:9001'' False, OtherServer ''http://localhost:9002'' False]"]
  by (simp add: NewLoadBalancer_def)

section \<open>The empty server list\<close>

text \<open>
  Claim C10: for a load balancer whose \<open>servers\<close> slice is empty, every call of
  \<open>GetNextAvailableServer\<close>, and so of \<open>ServeProxy\<close>, ends in the division by zero of
  \<open>roundRobinCount % 0\<close>; no backend is returned.
\<close>

theorem empty_set_panics:
  assumes "servers lb = []"
  shows "GetNextAvailableServer lb = Some (Inl DivideByZero) \<and>
         ServeProxy transport lb = Some (Inl DivideByZero)"
proof -
  have "current lb = Inl DivideByZero"
    using assms by (rule current_empty)
  then have "GetNextAvailableServer lb = Some (Inl DivideByZero)"
    by (rule GetNext_panic)
  then show ?thesis
    by (simp add: ServeProxy_def)
qed

theorem empty_set_panics_witness:
  "GetNextAvailableServer (NewLoadBalancer ''8000'' []) = Some (Inl DivideByZero) \<and>
   ServeProxy (\<lambda>a. TransportFailure) (NewLoadBalancer ''8000'' []) = Some (Inl DivideByZero)"
  using empty_set_panics [of "NewLoadBalancer ''8000'' []" "\<lambda>a. TransportFailure"]
  by (simp add: NewLoadBalancer_def)

section \<open>Selection from a cursor that has not wrapped\<close>

text \<open>
  While the counter is non-negative, Go's \<open>%\<close> agrees with \<open>mod\<close> and every probe is in
  range. The loop then returns the first server that is alive, counting forward from the
  cursor, provided the probes do not pass the largest value of the signed counter.
\<close>

lemma GetNext_alive_now:
  assumes "0 \<le> sint (roundRobinCount lb)" and "servers lb \<noteq> []"
    and "IsAlive (servers lb ! (nat (sint (roundRobinCount lb)) mod length (servers lb)))"
  shows "GetNextAvailableServer lb =
         Some (Inr (servers lb ! (nat (sint (roundRobinCount lb)) mod length (servers lb)),
                    advance lb))"
  using current_nonneg [OF assms(1,2)] assms(3) by (rule GetNext_alive)






lemma SimpleServer_alive: "is_SimpleServer s \<Longrightarrow> IsAlive s"
  by (cases s) simp_all

section \<open>Round-robin coverage\<close>




section \<open>Exactly one backend alive\<close>




section \<open>The wrapped cursor\<close>




section \<open>The always-alive stub and plain round robin\<close>




section \<open>Dispatch\<close>

text \<open>
  \<open>ServeProxy\<close> selects once and calls \<open>Serve\<close> once. It has no retry, no error of its
  own, and it changes nothing but the counter.
\<close>

lemma ServeProxy_alive_now:
  assumes "0 \<le> sint (roundRobinCount lb)" and "servers lb \<noteq> []"
    and "IsAlive (servers lb ! (nat (sint (roundRobinCount lb)) mod length (servers lb)))"
  shows "ServeProxy transport lb =
         Some (Inr (\<lparr>printed = [Address (servers lb ! (nat (sint (roundRobinCount lb)) mod length (servers lb)))],
                      forwards = [Address (servers lb ! (nat (sint (roundRobinCount lb)) mod length (servers lb)))],
                      written = transport (Address (servers lb ! (nat (sint (roundRobinCount lb)) mod length (servers lb))))\<rparr>,
                    advance lb))"
  using GetNext_alive_now [OF assms] by (simp add: ServeProxy_def Serve_def)

lemma ServeProxy_single:
  assumes "servers lb = [s]" and "IsAlive s"
  shows "ServeProxy transport lb =
         Some (Inr (\<lparr>printed = [Address s], forwards = [Address s],
                      written = transport (Address s)\<rparr>, advance lb))"
proof -
  have "current lb = Inr s"
    using assms(1) by (rule current_single)
  then have "GetNextAvailableServer lb = Some (Inr (s, advance lb))"
    using assms(2) by (rule GetNext_alive)
  then show ?thesis
    by (simp add: ServeProxy_def Serve_def)
qed

lemma ServeProxy_all_alive:
  assumes "servers lb \<noteq> []" and "\<forall>s\<in>set (servers lb). IsAlive s"
    and "0 \<le> sint (roundRobinCount lb)"
    and "sint (roundRobinCount lb) + int (length ts) \<le> 2 ^ 63"
  shows "\<exists>rs. ServeProxy_all ts lb = Some (Inr (rs, (advance ^^ length ts) lb)) \<and>
              length rs = length ts"
  using assms
proof (induction ts arbitrary: lb)
  case Nil
  show ?case by simp
next
  case (Cons t ts)
  let ?m = "nat (sint (roundRobinCount lb))"
  let ?n = "length (servers lb)"
  have "?m mod ?n < ?n" using Cons.prems(1) by simp
  then have "IsAlive (servers lb ! (?m mod ?n))"
    using Cons.prems(2) by simp
  then obtain r where first: "ServeProxy t lb = Some (Inr (r, advance lb))"
    using ServeProxy_alive_now [OF Cons.prems(3,1)] by blast
  show ?case
  proof (cases ts)
    case Nil
    with first show ?thesis by simp
  next
    case (Cons t' ts')
    with Cons.prems(4) have "sint (roundRobinCount lb) + 1 < 2 ^ 63"
      by simp
    then have s: "sint (roundRobinCount (advance lb)) = sint (roundRobinCount lb) + 1"
      by (simp add: sint_succ)
    have "\<exists>rs. ServeProxy_all ts (advance lb) =
             Some (Inr (rs, (advance ^^ length ts) (advance lb))) \<and> length rs = length ts"
      by (rule Cons.IH) (use Cons.prems s in simp_all)
    then obtain rs where rest:
      "ServeProxy_all ts (advance lb) = Some (Inr (rs, (advance ^^ length ts) (advance lb)))"
      "length rs = length ts"
      by blast
    with first have "ServeProxy_all (t # ts) lb =
        Some (Inr (r # rs, (advance ^^ length (t # ts)) lb)) \<and> length (r # rs) = length (t # ts)"
      by (simp add: funpow_swap1)
    then show ?thesis by blast
  qed
qed

text \<open>
  Claim C2 says that a dispatch over 3 backends that all fail at the transport level makes
  exactly 3 forward attempts and then fails with \<open>UpstreamUnavailable\<close>. With the three
  servers of \<open>main\<close> all failing, \<open>ServeProxy\<close> calls \<open>Serve\<close> on the first server only and
  returns what the proxy wrote for it.
\<close>

theorem three_failing_counterexample:
  "ServeProxy (\<lambda>a. TransportFailure) (NewLoadBalancer ''8000'' main_servers) =
     Some (Inr (\<lparr>printed = [''https://www.amazon.com''], forwards = [''https://www.amazon.com''],
                  written = TransportFailure\<rparr>,
                \<lparr>port = ''8000'', roundRobinCount = 1, servers = main_servers\<rparr>))"
proof -
  have "ServeProxy (\<lambda>a. TransportFailure) (NewLoadBalancer ''8000'' main_servers) =
      Some (Inr (\<lparr>printed = [Address (servers (NewLoadBalancer ''8000'' main_servers) ! (nat (sint (roundRobinCount (NewLoadBalancer ''8000'' main_servers))) mod length (servers (NewLoadBalancer ''8000'' main_servers))))],
                   forwards = [Address (servers (NewLoadBalancer ''8000'' main_servers) ! (nat (sint (roundRobinCount (NewLoadBalancer ''8000'' main_servers))) mod length (servers (NewLoadBalancer ''8000'' main_servers))))],
                   written = TransportFailure\<rparr>,
                 advance (NewLoadBalancer ''8000'' main_servers)))"
    by (rule ServeProxy_alive_now) (simp_all add: NewLoadBalancer_def main_servers_def)
  then show ?thesis
    by (simp add: NewLoadBalancer_def main_servers_def advance_def)
qed

text \<open>
  Claim C2 as amended: for a dispatch over 3 backends that all fail at the transport
  level (each reported alive, the cursor not negative), \<open>ServeProxy\<close> makes exactly 1
  forward attempt, to the backend at \<open>roundRobinCount mod 3\<close>, and returns with the
  failure written by the proxy; the code has no \<open>UpstreamUnavailable\<close> error.
\<close>

theorem three_failing_one_attempt:
  assumes "length (servers lb) = 3" and "\<forall>s\<in>set (servers lb). IsAlive s"
    and "0 \<le> sint (roundRobinCount lb)"
    and "\<forall>s\<in>set (servers lb). transport (Address s) = TransportFailure"
  shows "ServeProxy transport lb =
         Some (Inr (\<lparr>printed = [Address (servers lb ! (nat (sint (roundRobinCount lb)) mod 3))],
                      forwards = [Address (servers lb ! (nat (sint (roundRobinCount lb)) mod 3))],
                      written = TransportFailure\<rparr>,
                    lb\<lparr>roundRobinCount := roundRobinCount lb + 1\<rparr>))"
proof -
  let ?s = "servers lb ! (nat (sint (roundRobinCount lb)) mod length (servers lb))"
  from assms(1) have ne: "servers lb \<noteq> []" by auto
  have "nat (sint (roundRobinCount lb)) mod length (servers lb) < length (servers lb)"
    using assms(1) by simp
  then have mem: "?s \<in> set (servers lb)"
    by (rule nth_mem)
  with assms(2) have "IsAlive ?s" by blast
  from ServeProxy_alive_now [OF assms(3) ne this, of transport] mem assms(1,4)
  show ?thesis
    by (simp add: advance_def)
qed

theorem three_failing_one_attempt_witness:
  "ServeProxy (\<lambda>a. TransportFailure) \<lparr>port = ''8000'', roundRobinCount = 7, servers = main_servers\<rparr> =
     Some (Inr (\<lparr>printed = [''http://www.yahoo.com''], forwards = [''http://www.yahoo.com''],
                  written = TransportFailure\<rparr>,
                \<lparr>port = ''8000'', roundRobinCount = 8, servers = main_servers\<rparr>))"
  using three_failing_one_attempt
    [of "\<lparr>port = ''8000'', roundRobinCount = 7, servers = main_servers\<rparr>" "\<lambda>a. TransportFailure"]
  by (simp add: main_servers_def)

text \<open>
  Claim C3 says that when the first two candidates fail and the third succeeds, the
  dispatch returns the third backend's response and records 2 failures and 1 success.
  From the cursor 1 the candidates of \<open>main\<close> are yahoo, instagram, amazon; with only
  amazon answering, \<open>ServeProxy\<close> forwards to yahoo alone and returns its failure.
\<close>

theorem third_succeeds_counterexample:
  "ServeProxy (\<lambda>a. if a = ''https://www.amazon.com'' then Relayed ''ok'' else TransportFailure)
     \<lparr>port = ''8000'', roundRobinCount = 1, servers = main_servers\<rparr> =
     Some (Inr (\<lparr>printed = [''http://www.yahoo.com''], forwards = [''http://www.yahoo.com''],
                  written = TransportFailure\<rparr>,
                \<lparr>port = ''8000'', roundRobinCount = 2, servers = main_servers\<rparr>))"
proof -
  let ?lb = "\<lparr>port = ''8000'', roundRobinCount = 1, servers = main_servers\<rparr>"
  let ?t = "\<lambda>a. if a = ''https://www.amazon.com'' then Relayed ''ok'' else TransportFailure"
  have "ServeProxy ?t ?lb =
      Some (Inr (\<lparr>printed = [Address (servers ?lb ! (nat (sint (roundRobinCount ?lb)) mod length (servers ?lb)))],
                   forwards = [Address (servers ?lb ! (nat (sint (roundRobinCount ?lb)) mod length (servers ?lb)))],
                   written = ?t (Address (servers ?lb ! (nat (sint (roundRobinCount ?lb)) mod length (servers ?lb))))\<rparr>,
                 advance ?lb))"
    by (rule ServeProxy_alive_now) (simp_all add: main_servers_def)
  then show ?thesis
    by (simp add: main_servers_def advance_def)
qed

text \<open>
  Claim C3 as amended: for a dispatch over 3 backends (each reported alive, the cursor
  not negative) where the first two candidates fail at the transport level and the third
  succeeds, \<open>ServeProxy\<close> forwards to the first candidate only and returns its failure;
  nothing is recorded about any backend, the only change of state is the counter
  incremented by one.
\<close>

theorem first_candidate_only:
  assumes "length (servers lb) = 3" and "\<forall>s\<in>set (servers lb). IsAlive s"
    and "0 \<le> sint (roundRobinCount lb)"
    and "transport (Address (servers lb ! (nat (sint (roundRobinCount lb)) mod 3))) = TransportFailure"
    and "transport (Address (servers lb ! ((nat (sint (roundRobinCount lb)) + 1) mod 3))) = TransportFailure"
    and "transport (Address (servers lb ! ((nat (sint (roundRobinCount lb)) + 2) mod 3))) = Relayed body"
  shows "ServeProxy transport lb =
         Some (Inr (\<lparr>printed = [Address (servers lb ! (nat (sint (roundRobinCount lb)) mod 3))],
                      forwards = [Address (servers lb ! (nat (sint (roundRobinCount lb)) mod 3))],
                      written = TransportFailure\<rparr>,
                    lb\<lparr>roundRobinCount := roundRobinCount lb + 1\<rparr>))"
proof -
  let ?s = "servers lb ! (nat (sint (roundRobinCount lb)) mod length (servers lb))"
  from assms(1) have ne: "servers lb \<noteq> []" by auto
  have "nat (sint (roundRobinCount lb)) mod length (servers lb) < length (servers lb)"
    using assms(1) by simp
  then have "?s \<in> set (servers lb)"
    by (rule nth_mem)
  with assms(2) have "IsAlive ?s" by blast
  from ServeProxy_alive_now [OF assms(3) ne this, of transport] assms(1,4)
  show ?thesis
    by (simp add: advance_def)
qed

theorem first_candidate_only_witness:
  "ServeProxy (\<lambda>a. if a = ''http://www.instagram.com'' then Relayed ''ok'' else TransportFailure)
     \<lparr>port = ''8000'', roundRobinCount = 0, servers = main_servers\<rparr> =
     Some (Inr (\<lparr>printed = [''https://www.amazon.com''], forwards = [''https://www.amazon.com''],
                  written = TransportFailure\<rparr>,
                \<lparr>port = ''8000'', roundRobinCount = 1, servers = main_servers\<rparr>))"
  using first_candidate_only
    [of "\<lparr>port = ''8000'', roundRobinCount = 0, servers = main_servers\<rparr>"
        "\<lambda>a. if a = ''http://www.instagram.com'' then Relayed ''ok'' else TransportFailure" "''ok''"]
  by (simp add: main_servers_def)

section \<open>Liveness of a backend\<close>

text \<open>
  Claim C7 says that after 3 consecutive failures with no success in between \<open>isAlive\<close>
  returns false, and true again after one success. The program has no \<open>recordFailure\<close>
  or \<open>recordSuccess\<close>; the events such a record would count are the outcomes of the
  forwards. After three failed forwards to its only server, \<open>IsAlive\<close> of that server is
  still true, and the server list is as it was.
\<close>

theorem three_failures_still_alive:
  "ServeProxy_all [\<lambda>a. TransportFailure, \<lambda>a. TransportFailure, \<lambda>a. TransportFailure]
     (NewLoadBalancer ''8000'' [SimpleServer ''http://localhost:9001'']) =
     Some (Inr ([\<lparr>printed = [''http://localhost:9001''], forwards = [''http://localhost:9001''],
                   written = TransportFailure\<rparr>,
                 \<lparr>printed = [''http://localhost:9001''], forwards = [''http://localhost:9001''],
                   written = TransportFailure\<rparr>,
                 \<lparr>printed = [''http://localhost:9001''], forwards = [''http://localhost:9001''],
                   written = TransportFailure\<rparr>],
                \<lparr>port = ''8000'', roundRobinCount = 3,
                   servers = [SimpleServer ''http://localhost:9001'']\<rparr>)) \<and>
   IsAlive (SimpleServer ''http://localhost:9001'')"
proof -
  have step: "ServeProxy (\<lambda>a. TransportFailure)
        \<lparr>port = ''8000'', roundRobinCount = c, servers = [SimpleServer ''http://localhost:9001'']\<rparr> =
      Some (Inr (\<lparr>printed = [''http://localhost:9001''], forwards = [''http://localhost:9001''],
                   written = TransportFailure\<rparr>,
                 \<lparr>port = ''8000'', roundRobinCount = c + 1,
                    servers = [SimpleServer ''http://localhost:9001'']\<rparr>))" for c
    using ServeProxy_single
      [of "\<lparr>port = ''8000'', roundRobinCount = c, servers = [SimpleServer ''http://localhost:9001'']\<rparr>"
          "SimpleServer ''http://localhost:9001''" "\<lambda>a. TransportFailure"]
    by (simp add: advance_def)
  show ?thesis
    by (simp add: NewLoadBalancer_def step)
qed

text \<open>
  Claim C7 as amended: \<open>IsAlive\<close> of every \<open>SimpleServer\<close> is true before and after any
  sequence of failed and successful forwards; the code counts no failures and has no
  threshold. A run of requests over \<open>SimpleServer\<close>s, started at a cursor that is not
  negative and ending before the counter passes its largest value, serves every request
  and leaves the server list unchanged, every server still alive.
\<close>

theorem always_alive_after_forwards:
  assumes "servers lb \<noteq> []" and "\<forall>s\<in>set (servers lb). is_SimpleServer s"
    and "0 \<le> sint (roundRobinCount lb)"
    and "sint (roundRobinCount lb) + int (length ts) \<le> 2 ^ 63"
  shows "\<exists>rs lb'. ServeProxy_all ts lb = Some (Inr (rs, lb')) \<and> length rs = length ts \<and>
                  servers lb' = servers lb \<and> (\<forall>s\<in>set (servers lb'). IsAlive s)"
proof -
  have alive: "\<forall>s\<in>set (servers lb). IsAlive s"
    using assms(2) by (simp add: SimpleServer_alive)
  from ServeProxy_all_alive [OF assms(1) alive assms(3,4)]
  obtain rs where "ServeProxy_all ts lb = Some (Inr (rs, (advance ^^ length ts) lb))"
    "length rs = length ts"
    by blast
  moreover have "servers ((advance ^^ length ts) lb) = servers lb"
    by (rule servers_funpow)
  ultimately show ?thesis
    using alive by force
qed

theorem always_alive_after_forwards_witness:
  "\<exists>rs lb'. ServeProxy_all [\<lambda>a. TransportFailure, \<lambda>a. Relayed ''ok'']
                 (NewLoadBalancer ''8000'' main_servers) = Some (Inr (rs, lb')) \<and>
     length rs = 2 \<and> servers lb' = main_servers \<and>
     IsAlive (SimpleServer ''https://www.amazon.com'') \<and>
     IsAlive (SimpleServer ''http://www.yahoo.com'') \<and>
     IsAlive (SimpleServer ''http://www.instagram.com'')"
proof -
  let ?lb = "NewLoadBalancer ''8000'' main_servers"
  let ?ts = "[\<lambda>a::string. TransportFailure, \<lambda>a. Relayed ''ok'']"
  have "\<exists>rs lb'. ServeProxy_all ?ts ?lb = Some (Inr (rs, lb')) \<and> length rs = length ?ts \<and>
          servers lb' = servers ?lb \<and> (\<forall>s\<in>set (servers lb'). IsAlive s)"
    by (rule always_alive_after_forwards) (simp_all add: NewLoadBalancer_def main_servers_def)
  then obtain rs lb' where "ServeProxy_all ?ts ?lb = Some (Inr (rs, lb'))"
    and "length rs = length ?ts" and "servers lb' = servers ?lb"
    by blast
  then have "ServeProxy_all ?ts ?lb = Some (Inr (rs, lb')) \<and> length rs = 2 \<and>
      servers lb' = main_servers"
    by (simp add: NewLoadBalancer_def)
  then show ?thesis
    by auto
qed

section \<open>Determinism\<close>







end
